theory Spec2Isabelle
  imports Complex_Main
begin

section \<open>Contour model\<close>

text \<open>
  The contours JSON written by \<^verbatim>\<open>image_prep.py\<close> and read back by
  \<^verbatim>\<open>build_model_from_contours\<close>: a dictionary with the keys \<^verbatim>\<open>width\<close>,
  \<^verbatim>\<open>height\<close> and \<^verbatim>\<open>contours\<close>; every contour is a dictionary with the keys
  \<^verbatim>\<open>points\<close> (a list of \<^verbatim>\<open>[x, y]\<close> pairs of integers) and \<^verbatim>\<open>parent\<close>
  (an integer, \<open>-1\<close> when the contour has no parent). Python integers are unbounded,
  hence \<open>int\<close>.
\<close>

type_synonym point = "int \<times> int"

record contour =
  points :: "point list"
  parent :: int

record contour_set =
  width :: int
  height :: int
  contours :: "contour list"

text \<open>
  The exceptions the modelled code can raise: the \<^verbatim>\<open>ZeroDivisionError\<close> and the
  \<^verbatim>\<open>OverflowError\<close> of the divisions in the normalisation, and the
  \<^verbatim>\<open>ValueError\<close> of a slice whose step is zero.
\<close>

datatype error = ZeroDivisionError | OverflowError | ValueError

text \<open>
  A spline of the curve object: the control points \<^verbatim>\<open>spline.points[i].co\<close>, each a
  4-tuple \<^verbatim>\<open>(xw, yw, 0.0, 1.0)\<close>, and the flag \<^verbatim>\<open>use_cyclic_u\<close>. The values of
  Python floats are idealised as real numbers: neither the rounding of an operation nor
  the infinity of an overflowing float product or difference is modelled. The exceptions
  of the arithmetic are modelled; only the division of two integers has any.
\<close>

type_synonym coord = "real \<times> real \<times> real \<times> real"

record spline =
  co :: "coord list"
  use_cyclic_u :: bool

section \<open>Border test\<close>

text \<open>
  \<^verbatim>\<open>touches_border(cnt, w, h, margin=2)\<close>: the loop over \<^verbatim>\<open>cnt["points"]\<close> returns
  \<^verbatim>\<open>True\<close> at the first point within the margin and \<^verbatim>\<open>False\<close> when it runs out.
\<close>

fun touches_border_loop :: "point list \<Rightarrow> int \<Rightarrow> int \<Rightarrow> int \<Rightarrow> bool" where
  "touches_border_loop [] w h margin = False"
| "touches_border_loop ((x, y) # ps) w h margin =
     (if x \<le> margin \<or> y \<le> margin \<or> x \<ge> w - margin \<or> y \<ge> h - margin then True
      else touches_border_loop ps w h margin)"

definition touches_border :: "contour \<Rightarrow> int \<Rightarrow> int \<Rightarrow> int \<Rightarrow> bool" where
  "touches_border cnt w h margin = touches_border_loop (points cnt) w h margin"

definition default_margin :: int where
  "default_margin = 2"

text \<open>
  The comprehension that computes \<^verbatim>\<open>top_indices\<close>, with the margin handed to
  \<^verbatim>\<open>touches_border\<close> as a parameter; the source calls it without a margin, that is
  with the default of 2.
\<close>

definition eligible_indices :: "int \<Rightarrow> contour_set \<Rightarrow> nat list" where
  "eligible_indices margin data =
     [i. (i, c) \<leftarrow> enumerate 0 (contours data),
         parent c = -1 \<and> \<not> touches_border c (width data) (height data) margin]"

definition top_indices :: "contour_set \<Rightarrow> nat list" where
  "top_indices data = eligible_indices default_margin data"

section \<open>Curve builder\<close>

text \<open>
  \<open>every_nth k xs\<close> keeps the elements of \<open>xs\<close> at the indices \<open>0, k, 2k, \<dots>\<close>; it is
  the extended slice \<^verbatim>\<open>xs[::k]\<close> for a positive \<open>k\<close>.
\<close>

fun every_nth :: "nat \<Rightarrow> 'a list \<Rightarrow> 'a list" where
  "every_nth k [] = []"
| "every_nth k (x # xs) = x # every_nth k (drop (k - 1) xs)"

text \<open>
  Python's \<^verbatim>\<open>xs[::step]\<close>: a zero step raises \<^verbatim>\<open>ValueError\<close>, a negative step walks
  backwards from the last element.
\<close>

definition slice_step :: "'a list \<Rightarrow> int \<Rightarrow> error + 'a list" where
  "slice_step xs step =
     (if step = 0 then Inl ValueError
      else if step > 0 then Inr (every_nth (nat step) xs)
      else Inr (every_nth (nat (- step)) (rev xs)))"

text \<open>
  The true division \<^verbatim>\<open>a / b\<close> of two Python integers. A zero divisor raises
  \<^verbatim>\<open>ZeroDivisionError\<close>. Otherwise the quotient is rounded to the nearest double, and
  \<^verbatim>\<open>OverflowError\<close> is raised when the rounded quotient is not finite, that is when
  its magnitude reaches \<open>2 ^ 1024 - 2 ^ 970\<close>, the largest double plus half a unit in
  its last place.
\<close>

definition float_overflow :: "real \<Rightarrow> bool" where
  "float_overflow q \<longleftrightarrow> \<bar>q\<bar> \<ge> 2 ^ 1024 - 2 ^ 970"

definition true_div :: "int \<Rightarrow> int \<Rightarrow> error + real" where
  "true_div a b =
     (if b = 0 then Inl ZeroDivisionError
      else if float_overflow (real_of_int a / real_of_int b) then Inl OverflowError
      else Inr (real_of_int a / real_of_int b))"

text \<open>
  The body of the loop that fills the control points: \<^verbatim>\<open>u = x / (width - 1)\<close> is
  evaluated first, then \<^verbatim>\<open>v = y / (height - 1)\<close>; the float operations that follow
  raise nothing.
\<close>

definition world_co :: "int \<Rightarrow> int \<Rightarrow> real \<Rightarrow> point \<Rightarrow> error + coord" where
  "world_co w h scale p =
     (case p of (x, y) \<Rightarrow>
        (case true_div x (w - 1) of
           Inl e \<Rightarrow> Inl e
         | Inr u \<Rightarrow>
             (case true_div y (h - 1) of
                Inl e \<Rightarrow> Inl e
              | Inr v \<Rightarrow>
                  let xw = (u - 0.5) * scale;
                      yw = (0.5 - v) * scale
                  in Inr (xw, yw, 0, 1))))"

fun set_points :: "int \<Rightarrow> int \<Rightarrow> real \<Rightarrow> point list \<Rightarrow> error + coord list" where
  "set_points w h scale [] = Inr []"
| "set_points w h scale (p # ps) =
     (case world_co w h scale p of
        Inl e \<Rightarrow> Inl e
      | Inr c \<Rightarrow>
          (case set_points w h scale ps of
             Inl e \<Rightarrow> Inl e
           | Inr cs \<Rightarrow> Inr (c # cs)))"

text \<open>
  The points a spline is built from: reversed first when \<^verbatim>\<open>reverse\<close> is set, then
  subsampled when \<^verbatim>\<open>step > 1\<close>.
\<close>

definition selected_points :: "point list \<Rightarrow> bool \<Rightarrow> int \<Rightarrow> error + point list" where
  "selected_points pts reverse step =
     (let pts1 = (if reverse then rev pts else pts)
      in if step > 1 then slice_step pts1 step else Inr pts1)"

text \<open>
  \<^verbatim>\<open>add_bezier_spline(points, reverse, step)\<close> appends a closed spline to the splines
  of the shared curve object, here the list \<open>splines\<close>, or leaves them as they are
  when fewer than 3 points remain. \<open>w\<close>, \<open>h\<close> and \<open>scale\<close> are the variables of the
  enclosing function that the closure reads.
\<close>

definition add_bezier_spline ::
  "int \<Rightarrow> int \<Rightarrow> real \<Rightarrow> spline list \<Rightarrow> point list \<Rightarrow> bool \<Rightarrow> int \<Rightarrow> error + spline list" where
  "add_bezier_spline w h scale splines pts reverse step =
     (case selected_points pts reverse step of
        Inl e \<Rightarrow> Inl e
      | Inr sel \<Rightarrow>
          if length sel < 3 then Inr splines
          else
            (case set_points w h scale sel of
               Inl e \<Rightarrow> Inl e
             | Inr cs \<Rightarrow> Inr (splines @ [\<lparr>co = cs, use_cyclic_u = True\<rparr>])))"

section \<open>Hierarchy assembly\<close>

text \<open>
  The inner loop \<^verbatim>\<open>for j, c in enumerate(contours): if c["parent"] == i: ...\<close>, which
  adds the holes of the outer contour \<open>i\<close>.
\<close>

fun holes_loop ::
  "int \<Rightarrow> int \<Rightarrow> real \<Rightarrow> int \<Rightarrow> nat \<Rightarrow> (nat \<times> contour) list \<Rightarrow> spline list
     \<Rightarrow> error + spline list" where
  "holes_loop w h scale step i [] splines = Inr splines"
| "holes_loop w h scale step i ((j, c) # jcs) splines =
     (if parent c = int i then
        (case add_bezier_spline w h scale splines (points c) True step of
           Inl e \<Rightarrow> Inl e
         | Inr splines' \<Rightarrow> holes_loop w h scale step i jcs splines')
      else holes_loop w h scale step i jcs splines)"

text \<open>
  The outer loop \<^verbatim>\<open>for i in top_indices\<close>. The indices come from \<^verbatim>\<open>enumerate\<close>, so
  \<^verbatim>\<open>contours[i]\<close> is always in range.
\<close>

fun outer_loop ::
  "int \<Rightarrow> int \<Rightarrow> real \<Rightarrow> int \<Rightarrow> contour list \<Rightarrow> nat list \<Rightarrow> spline list
     \<Rightarrow> error + spline list" where
  "outer_loop w h scale step cnts [] splines = Inr splines"
| "outer_loop w h scale step cnts (i # is) splines =
     (case add_bezier_spline w h scale splines (points (cnts ! i)) False step of
        Inl e \<Rightarrow> Inl e
      | Inr splines1 \<Rightarrow>
          (case holes_loop w h scale step i (enumerate 0 cnts) splines1 of
             Inl e \<Rightarrow> Inl e
           | Inr splines2 \<Rightarrow> outer_loop w h scale step cnts is splines2))"

text \<open>
  \<^verbatim>\<open>build_model_from_contours\<close> from the parsed JSON to the splines of the curve object
  that is extruded and exported: a new curve object has no splines. An exception
  leaves the function before anything is exported.
\<close>

definition build_model_from_contours :: "contour_set \<Rightarrow> real \<Rightarrow> int \<Rightarrow> error + spline list" where
  "build_model_from_contours data scale bezier_step =
     outer_loop (width data) (height data) scale bezier_step (contours data)
       (top_indices data) []"

section \<open>Derived notions used in the proofs\<close>

text \<open>
  The points that remain after the optional reversal and the optional subsampling, as a
  total function: the guard \<^verbatim>\<open>step > 1\<close> keeps the slice away from a zero or
  negative step, so \<open>selected_points\<close> never raises (lemma \<open>selected_points_kept\<close>).
\<close>

definition kept_points :: "point list \<Rightarrow> bool \<Rightarrow> int \<Rightarrow> point list" where
  "kept_points pts reverse step =
     (let pts1 = (if reverse then rev pts else pts)
      in if step > 1 then every_nth (nat step) pts1 else pts1)"

text \<open>
  The control point of a pixel when both divisions succeed, and the condition that
  neither quotient of the pixel overflows.
\<close>

definition to_world :: "int \<Rightarrow> int \<Rightarrow> real \<Rightarrow> point \<Rightarrow> coord" where
  "to_world w h scale p =
     ((real_of_int (fst p) / real_of_int (w - 1) - 0.5) * scale,
      (0.5 - real_of_int (snd p) / real_of_int (h - 1)) * scale, 0, 1)"

definition fits :: "int \<Rightarrow> int \<Rightarrow> point \<Rightarrow> bool" where
  "fits w h p \<longleftrightarrow>
     \<not> float_overflow (real_of_int (fst p) / real_of_int (w - 1)) \<and>
     \<not> float_overflow (real_of_int (snd p) / real_of_int (h - 1))"

text \<open>
  A sequence of calls \<^verbatim>\<open>add_bezier_spline(points, reverse, step)\<close>, run in order on
  the shared splines; the first exception ends the run.
\<close>

fun build_curves ::
  "int \<Rightarrow> int \<Rightarrow> real \<Rightarrow> int \<Rightarrow> (point list \<times> bool) list \<Rightarrow> spline list
     \<Rightarrow> error + spline list" where
  "build_curves w h scale step [] splines = Inr splines"
| "build_curves w h scale step ((pts, reverse) # calls) splines =
     (case add_bezier_spline w h scale splines pts reverse step of
        Inl e \<Rightarrow> Inl e
      | Inr splines' \<Rightarrow> build_curves w h scale step calls splines')"

text \<open>
  The calls of \<^verbatim>\<open>add_bezier_spline\<close> that the two nested loops make, in order, for the
  top-level indices \<open>tops\<close>: the outer contour as it is, then each contour whose parent
  is that index, reversed.
\<close>

definition calls_of :: "contour list \<Rightarrow> nat list \<Rightarrow> (point list \<times> bool) list" where
  "calls_of cnts tops =
     concat (map (\<lambda>i. (points (cnts ! i), False) #
                    map (\<lambda>j. (points (cnts ! j), True))
                      (filter (\<lambda>j. parent (cnts ! j) = int i) [0..<length cnts])) tops)"

section \<open>The assembly as the specification words it\<close>

text \<open>
  Section 4.4 of the specification, to be compared with the loops of the source: an
  index is eligible when its contour has no parent and does not touch the border; the
  children of an index are the contours whose parent is that index, in the original
  order; the curves are built for each eligible index in the original order, the outer
  contour with \<open>reverse = false\<close>, then its children with \<open>reverse = true\<close>.
\<close>

definition spec_eligible :: "contour_set \<Rightarrow> nat \<Rightarrow> bool" where
  "spec_eligible data i \<longleftrightarrow>
     i < length (contours data) \<and> parent (contours data ! i) = -1 \<and>
     \<not> touches_border (contours data ! i) (width data) (height data) 2"

definition spec_children :: "contour_set \<Rightarrow> nat \<Rightarrow> nat list" where
  "spec_children data i =
     filter (\<lambda>j. parent (contours data ! j) = int i) [0..<length (contours data)]"

definition spec_emissions :: "contour_set \<Rightarrow> (nat \<times> bool) list" where
  "spec_emissions data =
     concat (map (\<lambda>i. (i, False) # map (\<lambda>j. (j, True)) (spec_children data i))
       (filter (spec_eligible data) [0..<length (contours data)]))"

section \<open>Test inputs\<close>

text \<open>A 10 by 10 image with one top-level square whose corners lie on the margin.\<close>

definition scenario_a :: contour_set where
  "scenario_a = \<lparr>width = 10, height = 10,
     contours = [\<lparr>points = [(2, 2), (2, 7), (7, 7), (7, 2)], parent = -1\<rparr>]\<rparr>"

text \<open>The same image with a square that stays clear of the margin.\<close>

definition scenario_b :: contour_set where
  "scenario_b = \<lparr>width = 10, height = 10,
     contours = [\<lparr>points = [(3, 3), (3, 6), (6, 6), (6, 3)], parent = -1\<rparr>]\<rparr>"

text \<open>A contour of five points, clear of the margin of a 10 by 10 image.\<close>

definition five_points :: "point list" where
  "five_points = [(3, 3), (5, 3), (6, 5), (5, 7), (3, 6)]"

text \<open>The spline that a run adds for the square of \<open>scenario_b\<close> at scale 2.\<close>

definition scenario_b_curve :: spline where
  "scenario_b_curve =
     \<lparr>co = [(- (1 / 3), 1 / 3, 0, 1), (- (1 / 3), - (1 / 3), 0, 1),
             (1 / 3, - (1 / 3), 0, 1), (1 / 3, 1 / 3, 0, 1)],
      use_cyclic_u = True\<rparr>"

text \<open>An octagon of 8 points, used with a subsampling step of 3.\<close>

definition octagon :: "point list" where
  "octagon = [(4, 3), (6, 3), (8, 4), (9, 6), (8, 8), (6, 9), (4, 8), (3, 6)]"

text \<open>
  Contours for a 21 by 21 image. At scale 20 the pixel \<open>(x, y)\<close> goes to
  \<open>(x - 10, 10 - y)\<close>.
\<close>

definition outer_square :: "point list" where
  "outer_square = [(3, 3), (3, 16), (16, 16), (16, 3)]"

definition inner_square :: "point list" where
  "inner_square = [(5, 5), (5, 8), (8, 8), (8, 5)]"

definition triangle :: "point list" where
  "triangle = [(10, 10), (10, 13), (13, 13)]"

text \<open>The splines of \<open>outer_square\<close> as it is and of \<open>inner_square\<close> reversed.\<close>

definition outer_curve :: spline where
  "outer_curve = \<lparr>co = [(- 7, 7, 0, 1), (- 7, - 6, 0, 1), (6, - 6, 0, 1), (6, 7, 0, 1)],
     use_cyclic_u = True\<rparr>"

definition inner_hole_curve :: spline where
  "inner_hole_curve = \<lparr>co = [(- 2, 5, 0, 1), (- 2, 2, 0, 1), (- 5, 2, 0, 1), (- 5, 5, 0, 1)],
     use_cyclic_u = True\<rparr>"

text \<open>A contour whose parent index is out of range.\<close>

definition malformed_out_of_range :: contour_set where
  "malformed_out_of_range = \<lparr>width = 21, height = 21,
     contours = [\<lparr>points = outer_square, parent = -1\<rparr>,
                 \<lparr>points = inner_square, parent = 7\<rparr>]\<rparr>"

text \<open>Two contours that are each other's parent.\<close>

definition malformed_cycle :: contour_set where
  "malformed_cycle = \<lparr>width = 21, height = 21,
     contours = [\<lparr>points = outer_square, parent = -1\<rparr>,
                 \<lparr>points = inner_square, parent = 2\<rparr>,
                 \<lparr>points = triangle, parent = 1\<rparr>]\<rparr>"

text \<open>Three levels of nesting.\<close>

definition malformed_deep :: contour_set where
  "malformed_deep = \<lparr>width = 21, height = 21,
     contours = [\<lparr>points = outer_square, parent = -1\<rparr>,
                 \<lparr>points = inner_square, parent = 0\<rparr>,
                 \<lparr>points = triangle, parent = 1\<rparr>]\<rparr>"

text \<open>
  An eligible outer contour with a hole, and a top-level contour on the border with a
  hole that is itself clear of the border.
\<close>

definition scenario_nested :: contour_set where
  "scenario_nested = \<lparr>width = 21, height = 21,
     contours = [\<lparr>points = outer_square, parent = -1\<rparr>,
                 \<lparr>points = inner_square, parent = 0\<rparr>,
                 \<lparr>points = [(1, 10), (1, 12), (4, 12)], parent = -1\<rparr>,
                 \<lparr>points = triangle, parent = 2\<rparr>]\<rparr>"

text \<open>Images of width and height 0, and of width 1.\<close>

definition zero_size :: contour_set where
  "zero_size = \<lparr>width = 0, height = 0,
     contours = [\<lparr>points = [], parent = -1\<rparr>,
                 \<lparr>points = [(3, 3), (3, 6), (6, 6)], parent = 0\<rparr>]\<rparr>"

definition unit_width :: contour_set where
  "unit_width = \<lparr>width = 1, height = 21,
     contours = [\<lparr>points = [], parent = -1\<rparr>,
                 \<lparr>points = triangle, parent = 0\<rparr>]\<rparr>"

text \<open>
  An eligible outer contour with a hole that has a coordinate beyond the range of a
  float. Holes are not tested against the border.
\<close>

definition huge_hole :: contour_set where
  "huge_hole = \<lparr>width = 21, height = 21,
     contours = [\<lparr>points = outer_square, parent = -1\<rparr>,
                 \<lparr>points = [(10 ^ 310, 5), (5, 8), (8, 8)], parent = 0\<rparr>]\<rparr>"

section \<open>Border test: lemmas\<close>

lemma touches_border_loop_iff:
  "touches_border_loop ps w h m \<longleftrightarrow>
     (\<exists>(x, y) \<in> set ps. x \<le> m \<or> y \<le> m \<or> x \<ge> w - m \<or> y \<ge> h - m)"
  by (induction ps w h m rule: touches_border_loop.induct) auto

lemma touches_border_loop_mono:
  "m1 \<le> m2 \<Longrightarrow> touches_border_loop ps w h m1 \<Longrightarrow> touches_border_loop ps w h m2"
  by (induction ps w h m1 rule: touches_border_loop.induct) (auto split: if_splits)

text \<open>The comprehension over \<^verbatim>\<open>enumerate(contours)\<close> is a filter on the indices.\<close>

lemma eligible_indices_upt:
  "eligible_indices m data =
     filter (\<lambda>i. parent (contours data ! i) = -1 \<and>
                 \<not> touches_border (contours data ! i) (width data) (height data) m)
       [0..<length (contours data)]"
proof -
  have "\<And>P. concat (map (\<lambda>(i, c). if P c then [i] else []) (zip [0..<length cs] cs))
           = filter (\<lambda>i. P (cs ! i)) [0..<length cs]" for cs :: "contour list"
  proof (induction cs rule: rev_induct)
    case Nil
    then show ?case by simp
  next
    case (snoc x xs)
    then show ?case by (auto simp: nth_append intro!: filter_cong)
  qed
  then show ?thesis
    by (simp add: eligible_indices_def enumerate_eq_zip)
qed

section \<open>Curve builder: lemmas\<close>

lemma selected_points_kept: "selected_points pts r step = Inr (kept_points pts r step)"
  by (simp add: selected_points_def kept_points_def slice_step_def Let_def)

lemma float_overflow_small: "\<bar>q\<bar> \<le> 1000000 \<Longrightarrow> \<not> float_overflow q"
  by (simp add: float_overflow_def)

lemma true_div_small:
  "b \<noteq> 0 \<Longrightarrow> \<bar>real_of_int a / real_of_int b\<bar> \<le> 1000000 \<Longrightarrow>
     true_div a b = Inr (real_of_int a / real_of_int b)"
  by (simp add: true_div_def float_overflow_small)

lemma world_co_eq:
  "world_co w h s p =
     (if w = 1 then Inl ZeroDivisionError
      else if float_overflow (real_of_int (fst p) / real_of_int (w - 1)) then Inl OverflowError
      else if h = 1 then Inl ZeroDivisionError
      else if float_overflow (real_of_int (snd p) / real_of_int (h - 1)) then Inl OverflowError
      else Inr (to_world w h s p))"
  by (cases p) (simp add: world_co_def true_div_def to_world_def Let_def)

lemma set_points_to_world:
  "w \<noteq> 1 \<Longrightarrow> h \<noteq> 1 \<Longrightarrow> \<forall>p \<in> set ps. fits w h p \<Longrightarrow>
     set_points w h s ps = Inr (map (to_world w h s) ps)"
  by (induction ps) (auto simp: world_co_eq fits_def)

lemma set_points_unit_width:
  "w = 1 \<Longrightarrow> ps \<noteq> [] \<Longrightarrow> set_points w h s ps = Inl ZeroDivisionError"
  by (cases ps) (auto simp: world_co_eq)

lemma world_co_fits:
  "w \<noteq> 1 \<Longrightarrow> h \<noteq> 1 \<Longrightarrow>
     world_co w h s p = (if fits w h p then Inr (to_world w h s p) else Inl OverflowError)"
  by (simp add: world_co_eq fits_def)

lemma set_points_overflow:
  "w \<noteq> 1 \<Longrightarrow> h \<noteq> 1 \<Longrightarrow> \<not> (\<forall>p \<in> set ps. fits w h p) \<Longrightarrow>
     set_points w h s ps = Inl OverflowError"
proof (induction ps)
  case Nil
  then show ?case by simp
next
  case (Cons p ps)
  show ?case
  proof (cases "fits w h p")
    case True
    with Cons.prems have "\<not> (\<forall>p \<in> set ps. fits w h p)" by simp
    then have "set_points w h s ps = Inl OverflowError"
      using Cons by simp
    then show ?thesis
      using True Cons.prems by (simp add: world_co_fits)
  next
    case False
    then show ?thesis
      using Cons.prems by (simp add: world_co_fits)
  qed
qed

lemma set_points_unit_height:
  "h = 1 \<Longrightarrow> ps \<noteq> [] \<Longrightarrow> \<exists>e. set_points w h s ps = Inl e"
  by (cases ps) (auto simp: world_co_eq)

lemma set_points_Inr:
  assumes "set_points w h s ps = Inr cs"
  shows "cs = map (to_world w h s) ps \<and> (ps \<noteq> [] \<longrightarrow> w \<noteq> 1 \<and> h \<noteq> 1) \<and>
         (\<forall>p \<in> set ps. fits w h p)"
  using assms
  by (induction ps arbitrary: cs)
     (auto simp: world_co_eq fits_def split: if_splits sum.splits)

lemma set_points_Inl:
  assumes "set_points w h s ps = Inl e"
  shows "(e = ZeroDivisionError \<and> (w = 1 \<or> h = 1)) \<or>
         (e = OverflowError \<and> (\<exists>p \<in> set ps. \<not> fits w h p))"
  using assms
  by (induction ps)
     (auto simp: world_co_eq fits_def split: if_splits sum.splits)

lemma add_bezier_spline_eq:
  "add_bezier_spline w h s spl pts r step =
     (if length (kept_points pts r step) < 3 then Inr spl
      else
        (case set_points w h s (kept_points pts r step) of
           Inl e \<Rightarrow> Inl e
         | Inr cs \<Rightarrow> Inr (spl @ [\<lparr>co = cs, use_cyclic_u = True\<rparr>])))"
  by (simp add: add_bezier_spline_def selected_points_kept)

lemma add_bezier_spline_cases:
  assumes "add_bezier_spline w h s spl pts r step = Inr spl'"
  shows "spl' = spl \<or> (\<exists>c. spl' = spl @ [c] \<and> 3 \<le> length (co c))"
  using assms
  by (auto simp: add_bezier_spline_eq split: if_splits sum.splits dest!: set_points_Inr)

lemma add_bezier_spline_Inl:
  assumes "add_bezier_spline w h s spl pts r step = Inl e"
  shows "(e = ZeroDivisionError \<and> (w = 1 \<or> h = 1)) \<or>
         (e = OverflowError \<and> (\<exists>p \<in> set (kept_points pts r step). \<not> fits w h p))"
  using assms set_points_Inl [of w h s "kept_points pts r step" e]
  by (auto simp: add_bezier_spline_eq split: if_splits sum.splits)

lemma add_bezier_spline_built:
  "3 \<le> length (kept_points pts r step) \<Longrightarrow> w \<noteq> 1 \<Longrightarrow> h \<noteq> 1 \<Longrightarrow>
   \<forall>p \<in> set (kept_points pts r step). fits w h p \<Longrightarrow>
     add_bezier_spline w h s spl pts r step =
       Inr (spl @ [\<lparr>co = map (to_world w h s) (kept_points pts r step),
                    use_cyclic_u = True\<rparr>])"
  by (simp add: add_bezier_spline_eq set_points_to_world)

lemma kept_points_le1: "step \<le> 1 \<Longrightarrow> kept_points pts r step = (if r then rev pts else pts)"
  by (simp add: kept_points_def)

lemma add_bezier_spline_le1:
  "step \<le> 1 \<Longrightarrow>
     add_bezier_spline w h s spl pts r step = add_bezier_spline w h s spl pts r 1"
  by (simp add: add_bezier_spline_eq kept_points_le1)

lemma set_every_nth: "set (every_nth k xs) \<subseteq> set xs"
proof (induction k xs rule: every_nth.induct)
  case (1 k)
  then show ?case by simp
next
  case (2 k x xs)
  have "set (drop (k - 1) xs) \<subseteq> set xs"
    by (rule set_drop_subset)
  with 2 show ?case by auto
qed

lemma set_kept_points: "set (kept_points pts r step) \<subseteq> set pts"
  using set_every_nth [of "nat step" pts] set_every_nth [of "nat step" "rev pts"]
  by (auto simp: kept_points_def)

lemma every_nth_3_of_5: "length xs = 5 \<Longrightarrow> length (every_nth 3 xs) = 2"
proof -
  assume "length xs = 5"
  then obtain a b c d e where "xs = [a, b, c, d, e]"
    by (auto simp: length_Suc_conv eval_nat_numeral)
  then show ?thesis by simp
qed

text \<open>Subsampling and reversal.\<close>

lemma every_nth_append:
  "0 < k \<Longrightarrow> k dvd length xs \<Longrightarrow> every_nth k (xs @ ys) = every_nth k xs @ every_nth k ys"
proof (induction k xs rule: every_nth.induct)
  case (1 k)
  then show ?case by simp
next
  case (2 k x xs)
  from \<open>k dvd length (x # xs)\<close> \<open>0 < k\<close> have le: "k \<le> Suc (length xs)"
    by (auto dest: dvd_imp_le)
  then have len: "length (drop (k - 1) xs) = Suc (length xs) - k"
    using \<open>0 < k\<close> by simp
  have "k dvd Suc (length xs) - k"
    using \<open>k dvd length (x # xs)\<close> by (simp add: dvd_diff_nat)
  then have "k dvd length (drop (k - 1) xs)"
    using len by simp
  then have "every_nth k (drop (k - 1) xs @ ys) =
      every_nth k (drop (k - 1) xs) @ every_nth k ys"
    using 2 by simp
  moreover have "drop (k - 1) (xs @ ys) = drop (k - 1) xs @ ys"
    using le by simp
  ultimately show ?case by simp
qed

lemma every_nth_snoc_block:
  assumes "0 < k" "as \<noteq> []" "k dvd (length as - 1)" "length bs = k - 1"
  shows "every_nth k (as @ bs @ cs) = every_nth k as @ every_nth k cs"
proof -
  have as: "as = butlast as @ [last as]"
    using assms(2) by simp
  have dv: "k dvd length (butlast as)"
    using assms(3) by simp
  have "every_nth k (butlast as @ ([last as] @ bs @ cs)) =
      every_nth k (butlast as) @ every_nth k ([last as] @ bs @ cs)"
    using assms(1) dv by (rule every_nth_append)
  moreover have "every_nth k (butlast as @ [last as]) =
      every_nth k (butlast as) @ every_nth k [last as]"
    using assms(1) dv by (rule every_nth_append)
  moreover have "every_nth k ([last as] @ bs @ cs) = last as # every_nth k cs"
    using assms(4) by simp
  ultimately have "every_nth k ((butlast as @ [last as]) @ bs @ cs) =
      every_nth k (butlast as @ [last as]) @ every_nth k cs"
    by simp
  then show ?thesis using as by simp
qed

lemma every_nth_short_tail:
  assumes "0 < k" "as \<noteq> []" "k dvd (length as - 1)" "length bs < k"
  shows "every_nth k (as @ bs) = every_nth k as"
proof -
  have as: "as = butlast as @ [last as]"
    using assms(2) by simp
  have dv: "k dvd length (butlast as)"
    using assms(3) by simp
  have "every_nth k (butlast as @ ([last as] @ bs)) =
      every_nth k (butlast as) @ every_nth k ([last as] @ bs)"
    using assms(1) dv by (rule every_nth_append)
  moreover have "every_nth k (butlast as @ [last as]) =
      every_nth k (butlast as) @ every_nth k [last as]"
    using assms(1) dv by (rule every_nth_append)
  moreover have "every_nth k ([last as] @ bs) = [last as]"
    using assms(4) by simp
  ultimately have "every_nth k ((butlast as @ [last as]) @ bs) =
      every_nth k (butlast as @ [last as])"
    by simp
  then show ?thesis using as by simp
qed

lemma every_nth_rev:
  "0 < k \<Longrightarrow> xs \<noteq> [] \<Longrightarrow> k dvd (length xs - 1) \<Longrightarrow> every_nth k (rev xs) = rev (every_nth k xs)"
proof (induction k xs rule: every_nth.induct)
  case (1 k)
  then show ?case by simp
next
  case (2 k x xs)
  show ?case
  proof (cases "xs = []")
    case True
    then show ?thesis by simp
  next
    case False
    let ?zs = "drop (k - 1) xs"
    from 2(4) have dv: "k dvd length xs" by simp
    with False \<open>0 < k\<close> have le: "k \<le> length xs"
      by (auto dest: dvd_imp_le)
    then have zs_ne: "?zs \<noteq> []" using \<open>0 < k\<close> by simp
    have "length ?zs - 1 = length xs - k" using \<open>0 < k\<close> by simp
    then have zs_dv: "k dvd (length ?zs - 1)"
      using dv by (simp add: dvd_diff_nat)
    have ih: "every_nth k (rev ?zs) = rev (every_nth k ?zs)"
      using 2(1) [OF \<open>0 < k\<close> zs_ne zs_dv] .
    have split: "rev (x # xs) = rev ?zs @ rev (take (k - 1) xs) @ [x]"
      by (metis append_take_drop_id rev.simps(2) rev_append append_assoc)
    have "every_nth k (rev ?zs @ rev (take (k - 1) xs) @ [x]) =
        every_nth k (rev ?zs) @ every_nth k [x]"
      using \<open>0 < k\<close> zs_ne zs_dv le by (intro every_nth_snoc_block) simp_all
    with ih split show ?thesis by simp
  qed
qed

lemma every_nth_rev_offset:
  assumes "0 < k"
  shows "every_nth k (rev xs) = rev (every_nth k (drop ((length xs - 1) mod k) xs))"
proof (cases "xs = []")
  case True
  then show ?thesis by simp
next
  case False
  let ?r = "(length xs - 1) mod k"
  have r_lt: "?r < k" using assms by simp
  have r_le: "?r \<le> length xs - 1" by (rule mod_less_eq_dividend)
  moreover from False have "0 < length xs" by simp
  ultimately have "?r < length xs" by arith
  then have ne: "drop ?r xs \<noteq> []" by simp
  have eq: "length (drop ?r xs) - 1 = (length xs - 1) - ?r" by simp
  have "k dvd (length xs - 1) - ?r" by (rule dvd_minus_mod)
  then have dv: "k dvd (length (drop ?r xs) - 1)"
    by (simp only: eq)
  have "rev xs = rev (drop ?r xs) @ rev (take ?r xs)"
    by (metis append_take_drop_id rev_append)
  moreover have "every_nth k (rev (drop ?r xs) @ rev (take ?r xs)) = every_nth k (rev (drop ?r xs))"
    using assms ne dv r_lt by (intro every_nth_short_tail) simp_all
  moreover have "every_nth k (rev (drop ?r xs)) = rev (every_nth k (drop ?r xs))"
    using assms ne dv by (rule every_nth_rev)
  ultimately show ?thesis by simp
qed

lemma kept_points_reverse:
  "kept_points pts True step =
     rev (kept_points (drop (if step > 1 then (length pts - 1) mod nat step else 0) pts)
            False step)"
  by (simp add: kept_points_def every_nth_rev_offset)

text \<open>Normalisation of a reversed list of points.\<close>

lemma set_points_rev_exact:
  assumes "w = 1 \<or> h \<noteq> 1"
  shows "set_points w h s (rev ks) = map_sum id rev (set_points w h s ks)"
proof (cases "ks = []")
  case True
  then show ?thesis by simp
next
  case ne: False
  show ?thesis
  proof (cases "w = 1")
    case True
    then show ?thesis using ne by (simp add: set_points_unit_width)
  next
    case False
    with assms have h: "h \<noteq> 1" by simp
    show ?thesis
    proof (cases "\<forall>p \<in> set ks. fits w h p")
      case True
      then show ?thesis
        using False h by (simp add: set_points_to_world rev_map)
    next
      case False
      then show ?thesis
        using \<open>w \<noteq> 1\<close> h by (simp add: set_points_overflow)
    qed
  qed
qed

lemma set_points_rev_unit:
  "map_sum (\<lambda>e. ()) id (set_points w h s (rev ks)) =
     map_sum (\<lambda>e. ()) rev (set_points w h s ks)"
proof (cases "w = 1 \<or> h \<noteq> 1")
  case True
  then show ?thesis
    by (cases "set_points w h s ks") (simp_all add: set_points_rev_exact)
next
  case False
  then have h: "h = 1" by simp
  show ?thesis
  proof (cases "ks = []")
    case True
    then show ?thesis by simp
  next
    case False
    then have "rev ks \<noteq> []" by simp
    from set_points_unit_height [OF h this] set_points_unit_height [OF h False]
    obtain e1 e2 where "set_points w h s (rev ks) = Inl e1" "set_points w h s ks = Inl e2"
      by blast
    then show ?thesis by simp
  qed
qed

lemma add_bezier_spline_reverse_exact:
  assumes "w = 1 \<or> h \<noteq> 1"
  shows "add_bezier_spline w h s [] pts True step =
       map_sum id (map (\<lambda>c. c\<lparr>co := rev (co c)\<rparr>))
         (add_bezier_spline w h s []
            (drop (if step > 1 then (length pts - 1) mod nat step else 0) pts) False step)"
  by (cases "set_points w h s (kept_points
        (drop (if step > 1 then (length pts - 1) mod nat step else 0) pts) False step)")
     (simp_all add: add_bezier_spline_eq kept_points_reverse [of pts step]
        set_points_rev_exact [OF assms])

lemma add_bezier_spline_reverse_unit:
  "map_sum (\<lambda>e. ()) id (add_bezier_spline w h s [] pts True step) =
       map_sum (\<lambda>e. ()) (map (\<lambda>c. c\<lparr>co := rev (co c)\<rparr>))
         (add_bezier_spline w h s []
            (drop (if step > 1 then (length pts - 1) mod nat step else 0) pts) False step)"
proof -
  let ?ks = "kept_points
        (drop (if step > 1 then (length pts - 1) mod nat step else 0) pts) False step"
  show ?thesis
    using set_points_rev_unit [of w h s ?ks]
    by (cases "set_points w h s ?ks"; cases "set_points w h s (rev ?ks)")
       (simp_all add: add_bezier_spline_eq kept_points_reverse [of pts step])
qed

section \<open>Hierarchy assembly: lemmas\<close>

lemma build_curves_append:
  "build_curves w h s step (xs @ ys) spl =
     (case build_curves w h s step xs spl of
        Inl e \<Rightarrow> Inl e
      | Inr spl' \<Rightarrow> build_curves w h s step ys spl')"
  by (induction xs arbitrary: spl) (auto split: sum.splits)

lemma holes_loop_build_curves:
  "holes_loop w h s step i jcs spl =
     build_curves w h s step
       (map (\<lambda>jc. (points (snd jc), True)) (filter (\<lambda>jc. parent (snd jc) = int i) jcs)) spl"
  by (induction w h s step i jcs spl rule: holes_loop.induct) (auto split: sum.splits)

lemma outer_loop_build_curves:
  "outer_loop w h s step cnts is spl =
     build_curves w h s step
       (concat (map (\<lambda>i. (points (cnts ! i), False) #
                     map (\<lambda>jc. (points (snd jc), True))
                       (filter (\<lambda>jc. parent (snd jc) = int i) (enumerate 0 cnts))) is)) spl"
  by (induction "is" arbitrary: spl)
     (auto simp: holes_loop_build_curves build_curves_append split: sum.splits)

lemma build_model_eq:
  "build_model_from_contours data s step =
     build_curves (width data) (height data) s step
       (concat (map (\<lambda>i. (points (contours data ! i), False) #
                     map (\<lambda>jc. (points (snd jc), True))
                       (filter (\<lambda>jc. parent (snd jc) = int i) (enumerate 0 (contours data))))
          (top_indices data))) []"
  by (simp add: build_model_from_contours_def outer_loop_build_curves)

lemma build_curves_le1:
  "step \<le> 1 \<Longrightarrow> build_curves w h s step calls spl = build_curves w h s 1 calls spl"
proof (induction calls arbitrary: spl)
  case Nil
  then show ?case by simp
next
  case (Cons call calls)
  obtain pts r where call: "call = (pts, r)" by (cases call)
  have "add_bezier_spline w h s spl pts r step = add_bezier_spline w h s spl pts r 1"
    using Cons.prems by (rule add_bezier_spline_le1)
  then show ?case
    using Cons by (simp add: call split: sum.splits)
qed

lemma build_curves_min3:
  "build_curves w h s step calls spl = Inr spl' \<Longrightarrow>
     \<forall>c \<in> set spl. 3 \<le> length (co c) \<Longrightarrow> \<forall>c \<in> set spl'. 3 \<le> length (co c)"
proof (induction calls arbitrary: spl)
  case Nil
  then show ?case by simp
next
  case (Cons call calls)
  obtain pts r where call: "call = (pts, r)" by (cases call)
  from Cons.prems(1) obtain mid where
    mid: "add_bezier_spline w h s spl pts r step = Inr mid"
    and rest: "build_curves w h s step calls mid = Inr spl'"
    by (auto simp: call split: sum.splits)
  from add_bezier_spline_cases [OF mid] Cons.prems(2)
  have "\<forall>c \<in> set mid. 3 \<le> length (co c)" by auto
  with Cons.IH [OF rest] show ?case .
qed

lemma build_curves_total:
  "w \<noteq> 1 \<Longrightarrow> h \<noteq> 1 \<Longrightarrow> \<forall>call \<in> set calls. \<forall>p \<in> set (fst call). fits w h p \<Longrightarrow>
     \<exists>curves. build_curves w h s step calls spl = Inr curves"
proof (induction calls arbitrary: spl)
  case Nil
  then show ?case by simp
next
  case (Cons call calls)
  obtain pts r where call: "call = (pts, r)" by (cases call)
  have "\<forall>p \<in> set (kept_points pts r step). fits w h p"
    using Cons.prems(3) set_kept_points [of pts r step] by (auto simp: call)
  then have "\<exists>mid. add_bezier_spline w h s spl pts r step = Inr mid"
    using Cons.prems(1,2) by (simp add: add_bezier_spline_eq set_points_to_world)
  then obtain mid where mid: "add_bezier_spline w h s spl pts r step = Inr mid" ..
  have "\<exists>curves. build_curves w h s step calls mid = Inr curves"
    using Cons.prems by (intro Cons.IH) simp_all
  with mid show ?case by (simp add: call)
qed

lemma build_curves_Inl:
  "build_curves w h s step calls spl = Inl e \<Longrightarrow>
     (e = ZeroDivisionError \<and> (w = 1 \<or> h = 1)) \<or>
     (e = OverflowError \<and> (\<exists>call \<in> set calls. \<exists>p \<in> set (fst call). \<not> fits w h p))"
proof (induction calls arbitrary: spl)
  case Nil
  then show ?case by simp
next
  case (Cons call calls)
  obtain pts r where call: "call = (pts, r)" by (cases call)
  show ?case
  proof (cases "add_bezier_spline w h s spl pts r step")
    case (Inl e')
    with Cons.prems have "e' = e" by (simp add: call)
    with Inl add_bezier_spline_Inl [of w h s spl pts r step e]
      set_kept_points [of pts r step]
    show ?thesis by (auto simp: call)
  next
    case (Inr mid)
    with Cons.prems have "build_curves w h s step calls mid = Inl e" by (simp add: call)
    from Cons.IH [OF this] show ?thesis by auto
  qed
qed

lemma enumerate_nth: "enumerate 0 xs = map (\<lambda>j. (j, xs ! j)) [0..<length xs]"
  by (rule nth_equalityI) (simp_all add: nth_enumerate_eq)

lemma top_indices_upt:
  "top_indices data =
     filter (\<lambda>i. parent (contours data ! i) = -1 \<and>
                 \<not> touches_border (contours data ! i) (width data) (height data) 2)
       [0..<length (contours data)]"
  by (simp add: top_indices_def eligible_indices_upt default_margin_def)

lemma build_model_calls:
  "build_model_from_contours data s step =
     build_curves (width data) (height data) s step
       (calls_of (contours data) (top_indices data)) []"
  by (simp add: build_model_eq calls_of_def enumerate_nth filter_map o_def)

lemma top_indices_range: "set (top_indices data) \<subseteq> {..<length (contours data)}"
  by (auto simp: top_indices_upt)

lemma calls_of_points:
  assumes "call \<in> set (calls_of cnts tops)" "set tops \<subseteq> {..<length cnts}"
  shows "\<exists>c \<in> set cnts. fst call = points c"
proof -
  from assms(1) obtain k where "k < length cnts" "fst call = points (cnts ! k)"
    using assms(2) by (auto simp: calls_of_def)
  then show ?thesis
    using nth_mem [of k cnts] by auto
qed

lemma build_model_total:
  assumes "width data \<noteq> 1" "height data \<noteq> 1"
    and "\<forall>c \<in> set (contours data). \<forall>p \<in> set (points c). fits (width data) (height data) p"
  shows "\<exists>curves. build_model_from_contours data s step = Inr curves"
proof -
  have "\<forall>p \<in> set (fst call). fits (width data) (height data) p"
    if "call \<in> set (calls_of (contours data) (top_indices data))" for call
  proof -
    from calls_of_points [OF that top_indices_range] obtain c where
      "c \<in> set (contours data)" "fst call = points c" by auto
    with assms(3) show ?thesis by simp
  qed
  then have "\<forall>call \<in> set (calls_of (contours data) (top_indices data)).
          \<forall>p \<in> set (fst call). fits (width data) (height data) p"
    by blast
  then show ?thesis
    using assms(1,2) by (simp add: build_model_calls build_curves_total)
qed

lemma build_model_error:
  assumes "build_model_from_contours data s step = Inl e"
  shows "(e = ZeroDivisionError \<and> (width data = 1 \<or> height data = 1)) \<or>
         (e = OverflowError \<and>
          (\<exists>c \<in> set (contours data). \<exists>p \<in> set (points c).
             \<not> fits (width data) (height data) p))"
proof -
  from assms have
    "build_curves (width data) (height data) s step
       (calls_of (contours data) (top_indices data)) [] = Inl e"
    by (simp add: build_model_calls)
  from build_curves_Inl [OF this] consider
      "e = ZeroDivisionError \<and> (width data = 1 \<or> height data = 1)"
    | call p where "e = OverflowError"
        "call \<in> set (calls_of (contours data) (top_indices data))"
        "p \<in> set (fst call)" "\<not> fits (width data) (height data) p"
    by auto
  then show ?thesis
  proof cases
    case 1
    then show ?thesis by simp
  next
    case 2
    from calls_of_points [OF 2(2) top_indices_range] obtain c where
      "c \<in> set (contours data)" "fst call = points c" by auto
    with 2 show ?thesis by auto
  qed
qed

lemma calls_of_update:
  assumes j: "j < length cnts"
    and tops: "\<forall>i \<in> set tops. i \<noteq> j \<and> parent (cnts ! j) \<noteq> int i \<and> parent c' \<noteq> int i"
  shows "calls_of (cnts[j := c']) tops = calls_of cnts tops"
proof -
  have "(points (cnts[j := c'] ! i), False) #
          map (\<lambda>k. (points (cnts[j := c'] ! k), True))
            (filter (\<lambda>k. parent (cnts[j := c'] ! k) = int i) [0..<length (cnts[j := c'])]) =
        (points (cnts ! i), False) #
          map (\<lambda>k. (points (cnts ! k), True))
            (filter (\<lambda>k. parent (cnts ! k) = int i) [0..<length cnts])"
    if "i \<in> set tops" for i
  proof -
    from that tops have ij: "i \<noteq> j" and pj: "parent (cnts ! j) \<noteq> int i"
      and pc: "parent c' \<noteq> int i" by auto
    have f: "filter (\<lambda>k. parent (cnts[j := c'] ! k) = int i) [0..<length cnts] =
        filter (\<lambda>k. parent (cnts ! k) = int i) [0..<length cnts]"
      using pj pc j by (intro filter_cong refl) (auto simp: nth_list_update)
    have m: "map (\<lambda>k. (points (cnts[j := c'] ! k), True))
            (filter (\<lambda>k. parent (cnts ! k) = int i) [0..<length cnts]) =
        map (\<lambda>k. (points (cnts ! k), True))
            (filter (\<lambda>k. parent (cnts ! k) = int i) [0..<length cnts])"
      using pj j by (intro map_cong refl) (auto simp: nth_list_update)
    show ?thesis using ij by (simp add: f m)
  qed
  then show ?thesis
    unfolding calls_of_def by (intro arg_cong [where f = concat] map_cong refl)
qed

lemma top_indices_update:
  assumes "j < length (contours data)" "parent c' \<noteq> -1" "parent (contours data ! j) \<noteq> -1"
  shows "top_indices (data\<lparr>contours := (contours data)[j := c']\<rparr>) = top_indices data"
  using assms unfolding top_indices_upt
  by (auto simp: nth_list_update intro!: filter_cong)

text \<open>The definitions that a run on a test input unfolds.\<close>

lemmas run_defs = build_model_from_contours_def top_indices_def eligible_indices_def
  touches_border_def default_margin_def add_bezier_spline_def selected_points_def
  slice_step_def world_co_def true_div_small

section \<open>The claims\<close>

text \<open>
  Claim C2. \<open>touches_border(contour, width, height, margin)\<close> is true exactly when some
  point \<open>(x, y)\<close> of the contour has \<open>x \<le> margin\<close>, \<open>y \<le> margin\<close>,
  \<open>x \<ge> width - margin\<close> or \<open>y \<ge> height - margin\<close>. In the 10 by 10 contour set whose
  only contour is the top-level square \<open>[[2,2],[2,7],[7,7],[7,2]]\<close> the contour touches
  the border at margin 2, and the run returns no curve, for every scale and step.
\<close>

theorem touches_border_characterisation:
  "(touches_border cnt w h margin \<longleftrightarrow>
      (\<exists>(x, y) \<in> set (points cnt).
         x \<le> margin \<or> y \<le> margin \<or> x \<ge> w - margin \<or> y \<ge> h - margin))
   \<and> touches_border (contours scenario_a ! 0) (width scenario_a) (height scenario_a) 2
   \<and> build_model_from_contours scenario_a scale step = Inr []"
proof -
  have "top_indices scenario_a = []"
    by (simp add: top_indices_def eligible_indices_def scenario_a_def touches_border_def
        default_margin_def)
  then have "build_model_from_contours scenario_a scale step = Inr []"
    by (simp add: build_model_from_contours_def)
  moreover have
    "touches_border (contours scenario_a ! 0) (width scenario_a) (height scenario_a) 2"
    by (simp add: scenario_a_def touches_border_def)
  ultimately show ?thesis
    by (simp add: touches_border_def touches_border_loop_iff)
qed

theorem touches_border_characterisation_witness:
  "\<not> touches_border (contours scenario_b ! 0) 10 10 2
   \<and> build_model_from_contours scenario_a 2 1 = Inr []"
  using touches_border_characterisation [of "contours scenario_b ! 0" 10 10 2 2 1]
  by (simp add: scenario_b_def)

text \<open>
  Claim C8. Border-filter monotonicity: for margins \<open>m1 \<le> m2\<close> the eligible top-level
  indices computed with margin \<open>m2\<close> are among those computed with margin \<open>m1\<close>.
\<close>

theorem eligible_indices_antimono:
  "m1 \<le> m2 \<Longrightarrow> set (eligible_indices m2 data) \<subseteq> set (eligible_indices m1 data)"
  by (auto simp: eligible_indices_upt touches_border_def dest: touches_border_loop_mono)

theorem eligible_indices_antimono_witness:
  "eligible_indices 2 scenario_b = [0] \<and> eligible_indices 3 scenario_b = []
   \<and> set (eligible_indices 3 scenario_b) \<subseteq> set (eligible_indices 2 scenario_b)"
  using eligible_indices_antimono [of 2 3 scenario_b]
  by (simp add: eligible_indices_def scenario_b_def touches_border_def)

text \<open>
  Claim C7. The slice guarded by \<open>step > 1\<close> never raises. When fewer than 3 points
  remain after the subsampling, \<open>add_bezier_spline\<close> adds no spline and raises no error;
  every spline it adds has at least 3 control points, and so has every spline of a
  finished run. A single top-level contour of 5 points with \<open>step = 3\<close> keeps 2 points
  and yields no curve, whatever the image size.
\<close>

theorem degenerate_contour_dropped:
  "(\<exists>sel. selected_points pts reverse step = Inr sel)
   \<and> (selected_points pts reverse step = Inr sel \<and> length sel < 3 \<longrightarrow>
        add_bezier_spline w h scale splines pts reverse step = Inr splines)
   \<and> (add_bezier_spline w h scale splines pts' reverse' step' = Inr splines' \<longrightarrow>
        splines' = splines \<or> (\<exists>c. splines' = splines @ [c] \<and> 3 \<le> length (co c)))
   \<and> (build_model_from_contours data scale step'' = Inr curves \<longrightarrow>
        (\<forall>c \<in> set curves. 3 \<le> length (co c)))
   \<and> (length pts5 = 5 \<longrightarrow>
        build_model_from_contours
          \<lparr>width = wd, height = ht, contours = [\<lparr>points = pts5, parent = -1\<rparr>]\<rparr> scale 3 = Inr [])"
proof -
  have a: "\<exists>sel. selected_points pts reverse step = Inr sel"
    by (simp add: selected_points_kept)
  have b: "add_bezier_spline w h scale splines pts reverse step = Inr splines"
    if "selected_points pts reverse step = Inr sel \<and> length sel < 3"
    using that by (auto simp: add_bezier_spline_def)
  have c: "splines' = splines \<or> (\<exists>c. splines' = splines @ [c] \<and> 3 \<le> length (co c))"
    if "add_bezier_spline w h scale splines pts' reverse' step' = Inr splines'"
    using that by (rule add_bezier_spline_cases)
  have d: "\<forall>c \<in> set curves. 3 \<le> length (co c)"
    if "build_model_from_contours data scale step'' = Inr curves"
    using that build_curves_min3 [of _ _ _ _ _ "[]" curves] by (simp add: build_model_eq)
  have e: "build_model_from_contours
          \<lparr>width = wd, height = ht, contours = [\<lparr>points = pts5, parent = -1\<rparr>]\<rparr> scale 3 = Inr []"
    if "length pts5 = 5"
  proof -
    have "length (kept_points pts5 False 3) = 2"
      using every_nth_3_of_5 [OF that] by (simp add: kept_points_def)
    then show ?thesis
      by (simp add: build_model_from_contours_def top_indices_def eligible_indices_def
          add_bezier_spline_eq)
  qed
  from a b c d e show ?thesis by blast
qed

theorem degenerate_contour_dropped_witness:
  "selected_points five_points False 3 = Inr [(3, 3), (5, 7)]
   \<and> add_bezier_spline 10 10 2 [] five_points False 3 = Inr []
   \<and> length (co (hd (projr (add_bezier_spline 10 10 2 [] five_points True 2)))) = 3
   \<and> top_indices \<lparr>width = 10, height = 10, contours = [\<lparr>points = five_points, parent = -1\<rparr>]\<rparr> = [0]
   \<and> build_model_from_contours
          \<lparr>width = 10, height = 10, contours = [\<lparr>points = five_points, parent = -1\<rparr>]\<rparr> 2 3 = Inr []"
  using degenerate_contour_dropped [of five_points False 3 "[(3, 3), (5, 7)]" 10 10 2 "[]"
      five_points True 2 "projr (add_bezier_spline 10 10 2 [] five_points True 2)"
      scenario_b 1 "projr (build_model_from_contours scenario_b 2 1)" five_points 10 10]
  by (simp add: five_points_def selected_points_def slice_step_def add_bezier_spline_def
      world_co_def true_div_small top_indices_def eligible_indices_def touches_border_def
      default_margin_def)

text \<open>
  Claim C1. The run is the sequence of spline-builder calls that the specification
  words: for each eligible top-level index (no parent, not touching the border at
  margin 2) in the original order, the outer contour with \<open>reverse = false\<close>, then every
  contour whose parent is that index, in the original order, with \<open>reverse = true\<close>.
  No other contour contributes a call: \<open>(j, False)\<close> is emitted exactly when \<open>j\<close> is
  eligible, \<open>(j, True)\<close> exactly when the parent of \<open>j\<close> is an eligible index, and
  a top-level contour that touches the border takes its holes out with it.
\<close>

theorem assembler_emits_outer_then_holes:
  "build_model_from_contours data scale step =
     build_curves (width data) (height data) scale step
       (map (\<lambda>jr. (points (contours data ! fst jr), snd jr)) (spec_emissions data)) []
   \<and> ((j, False) \<in> set (spec_emissions data) \<longleftrightarrow> spec_eligible data j)
   \<and> ((j, True) \<in> set (spec_emissions data) \<longleftrightarrow>
        j < length (contours data) \<and>
        (\<exists>i. spec_eligible data i \<and> parent (contours data ! j) = int i))
   \<and> (i < length (contours data) \<and> parent (contours data ! i) = -1 \<and>
        touches_border (contours data ! i) (width data) (height data) 2 \<and>
        parent (contours data ! j) = int i \<longrightarrow>
          (j, r) \<notin> set (spec_emissions data))"
proof -
  have tops: "top_indices data = filter (spec_eligible data) [0..<length (contours data)]"
    unfolding top_indices_upt by (intro filter_cong refl) (auto simp: spec_eligible_def)
  have calls: "calls_of (contours data) (top_indices data) =
      map (\<lambda>jr. (points (contours data ! fst jr), snd jr)) (spec_emissions data)"
    by (simp add: calls_of_def spec_emissions_def spec_children_def tops map_concat o_def)
  have a: "build_model_from_contours data scale step =
     build_curves (width data) (height data) scale step
       (map (\<lambda>jr. (points (contours data ! fst jr), snd jr)) (spec_emissions data)) []"
    by (simp only: build_model_calls calls)
  have b: "(j, False) \<in> set (spec_emissions data) \<longleftrightarrow> spec_eligible data j" for j
    by (auto simp: spec_emissions_def spec_eligible_def)
  have c: "(j, True) \<in> set (spec_emissions data) \<longleftrightarrow>
        j < length (contours data) \<and>
        (\<exists>i. spec_eligible data i \<and> parent (contours data ! j) = int i)" for j
    by (auto simp: spec_emissions_def spec_children_def spec_eligible_def)
  have d: "(j, r) \<notin> set (spec_emissions data)"
    if "i < length (contours data) \<and> parent (contours data ! i) = -1 \<and>
        touches_border (contours data ! i) (width data) (height data) 2 \<and>
        parent (contours data ! j) = int i"
  proof (cases r)
    case True
    then show ?thesis using that c [of j] by (auto simp: spec_eligible_def)
  next
    case False
    then show ?thesis using that b [of j] by (auto simp: spec_eligible_def)
  qed
  from a b c d show ?thesis by blast
qed

theorem assembler_emits_outer_then_holes_witness:
  "spec_emissions scenario_nested = [(0, False), (1, True)]
   \<and> (3, True) \<notin> set (spec_emissions scenario_nested)
   \<and> build_model_from_contours scenario_nested 20 1 = Inr [outer_curve, inner_hole_curve]"
proof -
  have e: "spec_emissions scenario_nested = [(0, False), (1, True)]"
    by (simp add: spec_emissions_def spec_children_def spec_eligible_def scenario_nested_def
        touches_border_def outer_square_def inner_square_def triangle_def)
  have r: "build_curves 21 21 20 1 [(outer_square, False), (inner_square, True)] [] =
      Inr [outer_curve, inner_hole_curve]"
    by (simp add: add_bezier_spline_def selected_points_def world_co_def true_div_small
        outer_square_def inner_square_def outer_curve_def inner_hole_curve_def)
  have h: "touches_border (contours scenario_nested ! 2) 21 21 2"
    by (simp add: scenario_nested_def touches_border_def)
  show ?thesis
    using assembler_emits_outer_then_holes [of scenario_nested 20 1 3 2 True] e r h
    by (simp add: scenario_nested_def)
qed

text \<open>
  Claim C10. For every \<open>step \<le> 1\<close>, zero and negative steps included, the spline
  builder does no subsampling and raises nothing on account of the step. The slice is not
  reached, so no \<open>ValueError\<close> arises; a sequence of fewer than 3 points adds nothing;
  from a sequence of at least 3 points whose divisions succeed the spline that is added
  has one control point for every point, in the original order or, with
  \<open>reverse\<close>, in the reversed order. The builder and the whole run behave as with
  \<open>step = 1\<close>.
\<close>

theorem step_at_most_one_keeps_all_points:
  "step \<le> 1 \<Longrightarrow>
     selected_points pts reverse step = Inr (if reverse then rev pts else pts)
     \<and> (length pts < 3 \<longrightarrow>
          add_bezier_spline w h scale splines pts reverse step = Inr splines)
     \<and> (3 \<le> length pts \<and> w \<noteq> 1 \<and> h \<noteq> 1 \<and> (\<forall>p \<in> set pts. fits w h p) \<longrightarrow>
          add_bezier_spline w h scale splines pts reverse step =
            Inr (splines @
              [\<lparr>co = map (\<lambda>(x, y).
                        ((real_of_int x / real_of_int (w - 1) - 0.5) * scale,
                         (0.5 - real_of_int y / real_of_int (h - 1)) * scale, 0, 1))
                      (if reverse then rev pts else pts),
                 use_cyclic_u = True\<rparr>]))
     \<and> (add_bezier_spline w h scale splines pts reverse step = Inl e \<longrightarrow> e \<noteq> ValueError)
     \<and> add_bezier_spline w h scale splines pts reverse step =
         add_bezier_spline w h scale splines pts reverse 1
     \<and> build_model_from_contours data scale step = build_model_from_contours data scale 1"
proof -
  assume le: "step \<le> 1"
  let ?kept = "if reverse then rev pts else pts"
  have k: "kept_points pts reverse step = ?kept"
    using le by (rule kept_points_le1)
  have tw: "to_world w h scale =
      (\<lambda>(x, y). ((real_of_int x / real_of_int (w - 1) - 0.5) * scale,
                  (0.5 - real_of_int y / real_of_int (h - 1)) * scale, 0, 1))"
    by (simp add: fun_eq_iff to_world_def)
  have a: "selected_points pts reverse step = Inr ?kept"
    using le by (simp add: selected_points_def)
  have b: "add_bezier_spline w h scale splines pts reverse step = Inr splines"
    if "length pts < 3"
    using that by (simp add: add_bezier_spline_eq k)
  have c: "add_bezier_spline w h scale splines pts reverse step =
            Inr (splines @
              [\<lparr>co = map (\<lambda>(x, y).
                        ((real_of_int x / real_of_int (w - 1) - 0.5) * scale,
                         (0.5 - real_of_int y / real_of_int (h - 1)) * scale, 0, 1))
                      ?kept,
                 use_cyclic_u = True\<rparr>])"
    if "3 \<le> length pts \<and> w \<noteq> 1 \<and> h \<noteq> 1 \<and> (\<forall>p \<in> set pts. fits w h p)"
  proof -
    from that have "3 \<le> length (kept_points pts reverse step)"
      and "\<forall>p \<in> set (kept_points pts reverse step). fits w h p"
      by (simp_all add: k)
    with that have "add_bezier_spline w h scale splines pts reverse step =
        Inr (splines @ [\<lparr>co = map (to_world w h scale) (kept_points pts reverse step),
                          use_cyclic_u = True\<rparr>])"
      by (intro add_bezier_spline_built) simp_all
    then show ?thesis by (simp only: k tw)
  qed
  have d: "e \<noteq> ValueError"
    if "add_bezier_spline w h scale splines pts reverse step = Inl e"
    using add_bezier_spline_Inl [OF that] by auto
  have f: "add_bezier_spline w h scale splines pts reverse step =
         add_bezier_spline w h scale splines pts reverse 1"
    using le by (rule add_bezier_spline_le1)
  have g: "build_model_from_contours data scale step = build_model_from_contours data scale 1"
    by (simp only: build_model_eq build_curves_le1 [OF le])
  from a b c d f g show ?thesis by blast
qed

theorem step_at_most_one_keeps_all_points_witness:
  "add_bezier_spline 10 10 2 [] [(3, 3), (3, 6), (6, 6), (6, 3)] True 0 =
     Inr [\<lparr>co = [(1 / 3, 1 / 3, 0, 1), (1 / 3, - (1 / 3), 0, 1),
                  (- (1 / 3), - (1 / 3), 0, 1), (- (1 / 3), 1 / 3, 0, 1)],
           use_cyclic_u = True\<rparr>]
   \<and> add_bezier_spline 10 10 2 [] [(3, 3), (3, 6), (6, 6), (6, 3)] False (- 2) =
     Inr [\<lparr>co = [(- (1 / 3), 1 / 3, 0, 1), (- (1 / 3), - (1 / 3), 0, 1),
                  (1 / 3, - (1 / 3), 0, 1), (1 / 3, 1 / 3, 0, 1)],
           use_cyclic_u = True\<rparr>]
   \<and> add_bezier_spline 10 10 2 [] [(3, 3), (3, 6)] False 0 = Inr []
   \<and> add_bezier_spline 1 10 2 [] [(3, 3), (3, 6), (6, 6)] False 0 = Inl ZeroDivisionError
   \<and> build_model_from_contours scenario_b 2 0 = build_model_from_contours scenario_b 2 1"
proof -
  have fit: "\<forall>p \<in> set [(3, 3), (3, 6), (6, 6), (6, 3)]. fits 10 10 p"
    by (simp add: fits_def float_overflow_small)
  have z: "add_bezier_spline 1 10 2 [] [(3, 3), (3, 6), (6, 6)] False 0 = Inl ZeroDivisionError"
    by (simp add: add_bezier_spline_def selected_points_def world_co_def true_div_def)
  show ?thesis
    using step_at_most_one_keeps_all_points
        [of 0 "[(3, 3), (3, 6), (6, 6), (6, 3)]" True 10 10 2 "[]" ZeroDivisionError scenario_b]
      step_at_most_one_keeps_all_points
        [of "- 2" "[(3, 3), (3, 6), (6, 6), (6, 3)]" False 10 10 2 "[]" ZeroDivisionError scenario_b]
      step_at_most_one_keeps_all_points
        [of 0 "[(3, 3), (3, 6)]" False 10 10 2 "[]" ZeroDivisionError scenario_b]
      step_at_most_one_keeps_all_points
        [of 0 "[(3, 3), (3, 6), (6, 6)]" False 1 10 2 "[]" ZeroDivisionError scenario_b]
      fit z
    by simp
qed

text \<open>
  Claim C6. For \<open>width > 1\<close> and \<open>height > 1\<close>, every point \<open>(x, y)\<close> of an added
  spline is mapped by \<open>u = x / (width - 1)\<close>, \<open>v = y / (height - 1)\<close>,
  \<open>xw = (u - 0.5) * scale\<close>, \<open>yw = (0.5 - v) * scale\<close>, without clamping: whenever
  the builder returns, the spline it has added is that map of the kept points. It returns
  exactly when no quotient of a kept point overflows the float range, and raises
  \<open>OverflowError\<close> otherwise. For a 10 by 10 image the point \<open>(3, 3)\<close> goes to
  \<open>((3/9 - 0.5) * scale, (0.5 - 3/9) * scale)\<close>. The values of floats are read as real
  numbers.
\<close>

theorem world_coordinates_formula:
  "(w > 1 \<and> h > 1 \<and> selected_points pts reverse step = Inr sel \<and> 3 \<le> length sel \<and>
    add_bezier_spline w h scale splines pts reverse step = Inr splines' \<longrightarrow>
      splines' = splines @
         [\<lparr>co = map (\<lambda>(x, y).
                   let u = real_of_int x / real_of_int (w - 1);
                       v = real_of_int y / real_of_int (h - 1);
                       xw = (u - 0.5) * scale;
                       yw = (0.5 - v) * scale
                   in (xw, yw, 0, 1)) sel,
            use_cyclic_u = True\<rparr>])
   \<and> (w > 1 \<and> h > 1 \<and> selected_points pts reverse step = Inr sel \<and> 3 \<le> length sel \<longrightarrow>
        ((\<exists>splines'. add_bezier_spline w h scale splines pts reverse step = Inr splines') \<longleftrightarrow>
         (\<forall>(x, y) \<in> set sel.
            \<not> float_overflow (real_of_int x / real_of_int (w - 1)) \<and>
            \<not> float_overflow (real_of_int y / real_of_int (h - 1)))))
   \<and> (w > 1 \<and> h > 1 \<and>
       add_bezier_spline w h scale splines pts reverse step = Inl e \<longrightarrow> e = OverflowError)
   \<and> world_co 10 10 scale (3, 3) = Inr ((3 / 9 - 0.5) * scale, (0.5 - 3 / 9) * scale, 0, 1)"
proof -
  have tw: "to_world w h scale =
          (\<lambda>(x, y).
                   let u = real_of_int x / real_of_int (w - 1);
                       v = real_of_int y / real_of_int (h - 1);
                       xw = (u - 0.5) * scale;
                       yw = (0.5 - v) * scale
                   in (xw, yw, 0, 1))"
    by (simp add: fun_eq_iff to_world_def Let_def)
  have fit: "(\<forall>(x, y) \<in> set ps.
            \<not> float_overflow (real_of_int x / real_of_int (w - 1)) \<and>
            \<not> float_overflow (real_of_int y / real_of_int (h - 1))) \<longleftrightarrow>
         (\<forall>p \<in> set ps. fits w h p)" for ps
    by (auto simp: fits_def)
  have a: "splines' = splines @ [\<lparr>co = map (to_world w h scale) sel, use_cyclic_u = True\<rparr>]"
    if "w > 1 \<and> h > 1 \<and> selected_points pts reverse step = Inr sel \<and> 3 \<le> length sel \<and>
        add_bezier_spline w h scale splines pts reverse step = Inr splines'"
  proof -
    from that have sel: "kept_points pts reverse step = sel"
      by (simp add: selected_points_kept)
    from that obtain cs where cs: "set_points w h scale sel = Inr cs"
      and s': "splines' = splines @ [\<lparr>co = cs, use_cyclic_u = True\<rparr>]"
      by (auto simp: add_bezier_spline_eq sel split: sum.splits)
    from set_points_Inr [OF cs] s' show ?thesis by simp
  qed
  have b: "(\<exists>splines'. add_bezier_spline w h scale splines pts reverse step = Inr splines') \<longleftrightarrow>
         (\<forall>p \<in> set sel. fits w h p)"
    if "w > 1 \<and> h > 1 \<and> selected_points pts reverse step = Inr sel \<and> 3 \<le> length sel"
  proof -
    from that have sel: "kept_points pts reverse step = sel"
      by (simp add: selected_points_kept)
    from that have w: "w \<noteq> 1" and h: "h \<noteq> 1" and len: "\<not> length sel < 3" by auto
    show ?thesis
    proof (cases "\<forall>p \<in> set sel. fits w h p")
      case True
      then show ?thesis
        using w h len by (simp add: add_bezier_spline_eq sel set_points_to_world)
    next
      case False
      then show ?thesis
        using w h len by (simp add: add_bezier_spline_eq sel set_points_overflow)
    qed
  qed
  have c: "e = OverflowError"
    if "w > 1 \<and> h > 1 \<and> add_bezier_spline w h scale splines pts reverse step = Inl e"
    using that add_bezier_spline_Inl [of w h scale splines pts reverse step e] by auto
  have d: "world_co 10 10 scale (3, 3) =
      Inr ((3 / 9 - 0.5) * scale, (0.5 - 3 / 9) * scale, 0, 1)"
    by (simp add: world_co_def true_div_small)
  from a b c d show ?thesis
    unfolding tw [symmetric] fit by blast
qed

theorem world_coordinates_formula_witness:
  "add_bezier_spline 10 10 2 [] [(3, 3), (3, 6), (20, 6), (6, -3)] False 1 =
     Inr [\<lparr>co = [(- (1 / 3), 1 / 3, 0, 1), (- (1 / 3), - (1 / 3), 0, 1),
                 (31 / 9, - (1 / 3), 0, 1), (1 / 3, 5 / 3, 0, 1)],
           use_cyclic_u = True\<rparr>]
   \<and> add_bezier_spline 21 21 20 [] [(10 ^ 310, 5), (5, 8), (8, 8)] True 1 = Inl OverflowError"
proof -
  have r: "add_bezier_spline 10 10 2 [] [(3, 3), (3, 6), (20, 6), (6, -3)] False 1 =
     Inr [\<lparr>co = [(- (1 / 3), 1 / 3, 0, 1), (- (1 / 3), - (1 / 3), 0, 1),
                 (31 / 9, - (1 / 3), 0, 1), (1 / 3, 5 / 3, 0, 1)],
           use_cyclic_u = True\<rparr>]"
    by (simp add: add_bezier_spline_def selected_points_def world_co_def true_div_small)
  have o: "add_bezier_spline 21 21 20 [] [(10 ^ 310, 5), (5, 8), (8, 8)] True 1 =
      Inl OverflowError"
    by (simp add: add_bezier_spline_def selected_points_def world_co_def true_div_def
        float_overflow_def)
  show ?thesis
    using world_coordinates_formula
        [of 10 10 "[(3, 3), (3, 6), (20, 6), (6, -3)]" False 1
          "[(3, 3), (3, 6), (20, 6), (6, -3)]" 2 "[]"
          "projr (add_bezier_spline 10 10 2 [] [(3, 3), (3, 6), (20, 6), (6, -3)] False 1)"
          OverflowError]
      world_coordinates_formula
        [of 21 21 "[(10 ^ 310, 5), (5, 8), (8, 8)]" True 1
          "[(8, 8), (5, 8), (10 ^ 310, 5)]" 20 "[]" "[]" OverflowError]
      r o
    by (simp add: selected_points_def)
qed

text \<open>
  Claim C3, as stated: the curve built with \<open>reverse = true\<close> is the exact reverse of the
  curve built with \<open>reverse = false\<close> from the same points after subsampling. It fails
  for an octagon of 8 points with step 3: the forward curve keeps the points 0, 3, 6,
  the reversed one the points 7, 4, 1.
\<close>

theorem winding_inversion_counterexample:
  "add_bezier_spline 21 21 20 [] octagon False 3 =
     Inr [\<lparr>co = [(- 6, 7, 0, 1), (- 1, 4, 0, 1), (- 6, 2, 0, 1)], use_cyclic_u = True\<rparr>]
   \<and> add_bezier_spline 21 21 20 [] octagon True 3 =
     Inr [\<lparr>co = [(- 7, 4, 0, 1), (- 2, 2, 0, 1), (- 4, 7, 0, 1)], use_cyclic_u = True\<rparr>]
   \<and> [(- 7, 4, 0, 1), (- 2, 2, 0, 1), (- 4, 7, 0, 1)] \<noteq>
       rev [(- 6, 7, 0, 1), (- 1, 4, 0, 1), (- 6, 2, 0, 1 :: real) :: coord]"
  by (simp add: octagon_def add_bezier_spline_def selected_points_def slice_step_def
      world_co_def true_div_small)

text \<open>
  Claim C3, amended. The reversal is applied to the original order and the subsampling
  to the reversed list. So the curve built with \<open>reverse = true\<close> from \<open>n\<close> points is
  the exact reverse of the curve built with \<open>reverse = false\<close> from the points without
  their first \<open>(n - 1) mod step\<close> ones (none for \<open>step \<le> 1\<close>); it is the exact reverse of
  the curve built with \<open>reverse = false\<close> from the same points when \<open>step \<le> 1\<close> or
  \<open>step\<close> divides \<open>n - 1\<close>. The two builds succeed or fail together. When they fail
  they raise the same exception, unless \<open>height = 1\<close> and \<open>width \<noteq> 1\<close>: there the
  first kept point decides between \<open>OverflowError\<close> and \<open>ZeroDivisionError\<close>, and the
  two builds start from different points.
\<close>

theorem reversed_curve_reverses_offset_subsample:
  "selected_points pts True step =
     map_sum id rev
       (selected_points
          (drop (if step > 1 then (length pts - 1) mod nat step else 0) pts) False step)
   \<and> map_sum (\<lambda>e. ()) id (add_bezier_spline w h scale [] pts True step) =
       map_sum (\<lambda>e. ()) (map (\<lambda>c. c\<lparr>co := rev (co c)\<rparr>))
         (add_bezier_spline w h scale []
            (drop (if step > 1 then (length pts - 1) mod nat step else 0) pts) False step)
   \<and> (w = 1 \<or> h \<noteq> 1 \<longrightarrow>
        add_bezier_spline w h scale [] pts True step =
          map_sum id (map (\<lambda>c. c\<lparr>co := rev (co c)\<rparr>))
            (add_bezier_spline w h scale []
               (drop (if step > 1 then (length pts - 1) mod nat step else 0) pts) False step))
   \<and> (step \<le> 1 \<or> (length pts - 1) mod nat step = 0 \<longrightarrow>
        map_sum (\<lambda>e. ()) id (add_bezier_spline w h scale [] pts True step) =
          map_sum (\<lambda>e. ()) (map (\<lambda>c. c\<lparr>co := rev (co c)\<rparr>))
            (add_bezier_spline w h scale [] pts False step)
        \<and> (w = 1 \<or> h \<noteq> 1 \<longrightarrow>
             add_bezier_spline w h scale [] pts True step =
               map_sum id (map (\<lambda>c. c\<lparr>co := rev (co c)\<rparr>))
                 (add_bezier_spline w h scale [] pts False step)))"
proof -
  let ?off = "if step > 1 then (length pts - 1) mod nat step else 0"
  have a: "selected_points pts True step =
     map_sum id rev (selected_points (drop ?off pts) False step)"
    by (simp only: selected_points_kept kept_points_reverse [of pts step] map_sum.simps)
  have b: "map_sum (\<lambda>e. ()) id (add_bezier_spline w h scale [] pts True step) =
       map_sum (\<lambda>e. ()) (map (\<lambda>c. c\<lparr>co := rev (co c)\<rparr>))
         (add_bezier_spline w h scale [] (drop ?off pts) False step)"
    by (rule add_bezier_spline_reverse_unit)
  have c: "add_bezier_spline w h scale [] pts True step =
          map_sum id (map (\<lambda>c. c\<lparr>co := rev (co c)\<rparr>))
            (add_bezier_spline w h scale [] (drop ?off pts) False step)"
    if "w = 1 \<or> h \<noteq> 1"
    using that by (rule add_bezier_spline_reverse_exact)
  have d: "map_sum (\<lambda>e. ()) id (add_bezier_spline w h scale [] pts True step) =
          map_sum (\<lambda>e. ()) (map (\<lambda>c. c\<lparr>co := rev (co c)\<rparr>))
            (add_bezier_spline w h scale [] pts False step)
        \<and> (w = 1 \<or> h \<noteq> 1 \<longrightarrow>
             add_bezier_spline w h scale [] pts True step =
               map_sum id (map (\<lambda>c. c\<lparr>co := rev (co c)\<rparr>))
                 (add_bezier_spline w h scale [] pts False step))"
    if "step \<le> 1 \<or> (length pts - 1) mod nat step = 0"
  proof -
    from that have "?off = 0" by auto
    then have "drop ?off pts = pts" by (simp del: One_nat_def)
    with b c show ?thesis by (simp del: One_nat_def)
  qed
  from a b c d show ?thesis by blast
qed

theorem reversed_curve_reverses_offset_subsample_witness:
  "selected_points octagon True 3 = Inr [(3, 6), (8, 8), (6, 3)]
   \<and> selected_points (drop 1 octagon) False 3 = Inr [(6, 3), (8, 8), (3, 6)]
   \<and> add_bezier_spline 21 21 20 [] octagon True 3 =
       map_sum id (map (\<lambda>c. c\<lparr>co := rev (co c)\<rparr>))
         (add_bezier_spline 21 21 20 [] (drop 1 octagon) False 3)
   \<and> add_bezier_spline 21 21 20 [] (drop 1 octagon) False 3 =
       Inr [\<lparr>co = [(- 4, 7, 0, 1), (- 2, 2, 0, 1), (- 7, 4, 0, 1)], use_cyclic_u = True\<rparr>]
   \<and> add_bezier_spline 21 21 20 [] (drop 1 octagon) True 3 =
       Inr [\<lparr>co = [(- 7, 4, 0, 1), (- 2, 2, 0, 1), (- 4, 7, 0, 1)], use_cyclic_u = True\<rparr>]
   \<and> add_bezier_spline 21 1 20 [] [(10 ^ 310, 0), (1, 0), (2, 0)] False 1 = Inl OverflowError
   \<and> add_bezier_spline 21 1 20 [] [(10 ^ 310, 0), (1, 0), (2, 0)] True 1 =
       Inl ZeroDivisionError"
proof -
  have f: "add_bezier_spline 21 21 20 [] (drop 1 octagon) False 3 =
       Inr [\<lparr>co = [(- 4, 7, 0, 1), (- 2, 2, 0, 1), (- 7, 4, 0, 1)], use_cyclic_u = True\<rparr>]"
    by (simp add: octagon_def add_bezier_spline_def selected_points_def slice_step_def
        world_co_def true_div_small)
  have l: "length (drop 1 octagon) = 7"
    by (simp add: octagon_def)
  have o: "add_bezier_spline 21 1 20 [] [(10 ^ 310, 0), (1, 0), (2, 0)] False 1 =
      Inl OverflowError"
    by (simp add: add_bezier_spline_def selected_points_def world_co_def true_div_def
        float_overflow_def)
  have z: "add_bezier_spline 21 1 20 [] [(10 ^ 310, 0), (1, 0), (2, 0)] True 1 =
      Inl ZeroDivisionError"
    by (simp add: add_bezier_spline_def selected_points_def world_co_def true_div_def
        float_overflow_def)
  show ?thesis
    using reversed_curve_reverses_offset_subsample [of octagon 3 21 21 20]
      reversed_curve_reverses_offset_subsample [of "drop 1 octagon" 3 21 21 20] f l o z
    by (simp add: octagon_def selected_points_def slice_step_def)
qed

text \<open>
  Claim C4, as stated: a contour set with a parent index out of range, a cyclic parent
  relation or more than two levels of nesting fails with a malformed-hierarchy condition
  before any curve is built. The source has no such check: each of the three malformed
  inputs below runs to the end and builds curves.
\<close>

theorem malformed_hierarchy_counterexample:
  "length (contours malformed_out_of_range) = 2
   \<and> parent (contours malformed_out_of_range ! 1) = 7
   \<and> build_model_from_contours malformed_out_of_range 20 1 = Inr [outer_curve]
   \<and> parent (contours malformed_cycle ! 1) = 2
   \<and> parent (contours malformed_cycle ! 2) = 1
   \<and> build_model_from_contours malformed_cycle 20 1 = Inr [outer_curve]
   \<and> parent (contours malformed_deep ! 0) = - 1
   \<and> parent (contours malformed_deep ! 1) = 0
   \<and> parent (contours malformed_deep ! 2) = 1
   \<and> build_model_from_contours malformed_deep 20 1 = Inr [outer_curve, inner_hole_curve]"
  by (simp add: run_defs malformed_out_of_range_def malformed_cycle_def malformed_deep_def
      outer_square_def inner_square_def triangle_def outer_curve_def inner_hole_curve_def)

text \<open>
  Claim C4, amended. The parent relation is not validated, and no failure of a run comes
  from it. A contour whose parent is neither \<open>-1\<close> nor an eligible top-level index is
  skipped silently: putting any other such contour in its place, with any points and any
  such parent, leaves the result of the run as it is. A run fails only in a division of the
  normalisation; with \<open>width \<noteq> 1\<close>, \<open>height \<noteq> 1\<close> and no point whose quotient
  overflows the float range, every contour set yields a list of curves, whatever its
  parent relation.
\<close>

theorem hierarchy_not_validated:
  "(j < length (contours data) \<and>
    parent (contours data ! j) \<noteq> -1 \<and>
    parent (contours data ! j) \<notin> int ` set (top_indices data) \<and>
    parent c' \<noteq> -1 \<and> parent c' \<notin> int ` set (top_indices data) \<longrightarrow>
      build_model_from_contours (data\<lparr>contours := (contours data)[j := c']\<rparr>) scale step =
      build_model_from_contours data scale step)
   \<and> (width data \<noteq> 1 \<and> height data \<noteq> 1 \<and>
       (\<forall>c \<in> set (contours data). \<forall>p \<in> set (points c).
          fits (width data) (height data) p) \<longrightarrow>
         (\<exists>curves. build_model_from_contours data scale step = Inr curves))
   \<and> (build_model_from_contours data scale step = Inl e \<longrightarrow>
         e = ZeroDivisionError \<or> e = OverflowError)"
proof -
  have a: "build_model_from_contours (data\<lparr>contours := (contours data)[j := c']\<rparr>) scale step =
      build_model_from_contours data scale step"
    if h: "j < length (contours data) \<and>
      parent (contours data ! j) \<noteq> -1 \<and>
      parent (contours data ! j) \<notin> int ` set (top_indices data) \<and>
      parent c' \<noteq> -1 \<and> parent c' \<notin> int ` set (top_indices data)"
  proof -
    have t: "top_indices (data\<lparr>contours := (contours data)[j := c']\<rparr>) = top_indices data"
      using h by (intro top_indices_update) simp_all
    have "\<forall>i \<in> set (top_indices data).
        i \<noteq> j \<and> parent (contours data ! j) \<noteq> int i \<and> parent c' \<noteq> int i"
      using h by (auto simp: top_indices_upt)
    then have "calls_of ((contours data)[j := c']) (top_indices data) =
        calls_of (contours data) (top_indices data)"
      using h by (intro calls_of_update) simp_all
    then show ?thesis
      by (simp add: build_model_calls t)
  qed
  have b: "\<exists>curves. build_model_from_contours data scale step = Inr curves"
    if "width data \<noteq> 1 \<and> height data \<noteq> 1 \<and>
       (\<forall>c \<in> set (contours data). \<forall>p \<in> set (points c).
          fits (width data) (height data) p)"
    using that by (intro build_model_total) simp_all
  have c: "e = ZeroDivisionError \<or> e = OverflowError"
    if "build_model_from_contours data scale step = Inl e"
    using build_model_error [OF that] by auto
  from a b c show ?thesis by blast
qed

theorem hierarchy_not_validated_witness:
  "build_model_from_contours
     (malformed_deep\<lparr>contours := (contours malformed_deep)[2 := \<lparr>points = [], parent = 99\<rparr>]\<rparr>)
     20 1 = build_model_from_contours malformed_deep 20 1
   \<and> build_model_from_contours malformed_deep 20 1 = Inr [outer_curve, inner_hole_curve]
   \<and> build_model_from_contours huge_hole 20 1 = Inl OverflowError"
proof -
  have t: "top_indices malformed_deep = [0]"
    by (simp add: run_defs malformed_deep_def outer_square_def inner_square_def triangle_def)
  have r: "build_model_from_contours malformed_deep 20 1 = Inr [outer_curve, inner_hole_curve]"
    by (simp add: run_defs malformed_deep_def outer_square_def inner_square_def triangle_def
        outer_curve_def inner_hole_curve_def)
  have p: "parent (contours malformed_deep ! 2) = 1" "2 < length (contours malformed_deep)"
    by (simp_all add: malformed_deep_def)
  have f: "\<forall>c \<in> set (contours malformed_deep). \<forall>p \<in> set (points c). fits 21 21 p"
    by (simp add: malformed_deep_def outer_square_def inner_square_def triangle_def fits_def
        float_overflow_small)
  have o: "build_model_from_contours huge_hole 20 1 = Inl OverflowError"
    by (simp add: run_defs huge_hole_def outer_square_def true_div_def float_overflow_def)
  show ?thesis
    using hierarchy_not_validated
        [of 2 malformed_deep "\<lparr>points = [], parent = 99\<rparr>" 20 1 OverflowError]
      hierarchy_not_validated
        [of 2 huge_hole "\<lparr>points = [], parent = 99\<rparr>" 20 1 OverflowError] t r p f o
    by (simp add: malformed_deep_def)
qed

text \<open>
  Claim C5, as stated: a run with \<open>width \<le> 1\<close>, \<open>height \<le> 1\<close>, \<open>scale \<le> 0\<close> or
  \<open>step \<le> 0\<close> is rejected before any curve is built. The source validates none of them:
  the runs below, with step 0, with a negative scale and with width and height 0, each
  build a curve.
\<close>

theorem configuration_validation_counterexample:
  "build_model_from_contours scenario_b 2 0 = Inr [scenario_b_curve]
   \<and> build_model_from_contours scenario_b (- 2) 1 =
       Inr [\<lparr>co = [(1 / 3, - (1 / 3), 0, 1), (1 / 3, 1 / 3, 0, 1),
                    (- (1 / 3), 1 / 3, 0, 1), (- (1 / 3), - (1 / 3), 0, 1)],
             use_cyclic_u = True\<rparr>]
   \<and> build_model_from_contours zero_size 2 1 =
       Inr [\<lparr>co = [(- 13, 13, 0, 1), (- 7, 13, 0, 1), (- 7, 7, 0, 1)], use_cyclic_u = True\<rparr>]"
  by (simp add: run_defs scenario_b_def zero_size_def scenario_b_curve_def)

text \<open>
  Claim C5, amended. The configuration is not validated. A step \<open>\<le> 0\<close> is read as
  step 1. Whatever the scale and the step, a run with \<open>width \<noteq> 1\<close> and \<open>height \<noteq> 1\<close>
  in which no quotient of a point overflows the float range returns a list of curves.
  A run fails only in a division of the normalisation: with \<open>ZeroDivisionError\<close>, which
  needs \<open>width = 1\<close> or \<open>height = 1\<close>, or with \<open>OverflowError\<close>, which needs a point
  whose quotient overflows; then nothing is returned.
\<close>

theorem no_configuration_validation:
  "(width data \<noteq> 1 \<and> height data \<noteq> 1 \<and>
    (\<forall>c \<in> set (contours data). \<forall>p \<in> set (points c).
       fits (width data) (height data) p) \<longrightarrow>
      (\<exists>curves. build_model_from_contours data scale step = Inr curves))
   \<and> (build_model_from_contours data scale step = Inl e \<longrightarrow>
        (e = ZeroDivisionError \<and> (width data = 1 \<or> height data = 1)) \<or>
        (e = OverflowError \<and>
         (\<exists>c \<in> set (contours data). \<exists>p \<in> set (points c).
            \<not> fits (width data) (height data) p)))
   \<and> (step \<le> 0 \<longrightarrow>
        build_model_from_contours data scale step = build_model_from_contours data scale 1)"
proof -
  have a: "\<exists>curves. build_model_from_contours data scale step = Inr curves"
    if "width data \<noteq> 1 \<and> height data \<noteq> 1 \<and>
       (\<forall>c \<in> set (contours data). \<forall>p \<in> set (points c).
          fits (width data) (height data) p)"
    using that by (intro build_model_total) simp_all
  have b: "(e = ZeroDivisionError \<and> (width data = 1 \<or> height data = 1)) \<or>
        (e = OverflowError \<and>
         (\<exists>c \<in> set (contours data). \<exists>p \<in> set (points c).
            \<not> fits (width data) (height data) p))"
    if "build_model_from_contours data scale step = Inl e"
    using that by (rule build_model_error)
  have c: "build_model_from_contours data scale step = build_model_from_contours data scale 1"
    if "step \<le> 0"
  proof -
    from that have le: "step \<le> 1" by simp
    show ?thesis
      by (simp only: build_model_eq build_curves_le1 [OF le])
  qed
  from a b c show ?thesis by blast
qed

theorem no_configuration_validation_witness:
  "build_model_from_contours unit_width 2 1 = Inl ZeroDivisionError
   \<and> build_model_from_contours huge_hole 20 1 = Inl OverflowError
   \<and> build_model_from_contours scenario_b (- 2) (- 3) =
       build_model_from_contours scenario_b (- 2) 1
   \<and> build_model_from_contours scenario_b (- 2) (- 3) =
       Inr [\<lparr>co = [(1 / 3, - (1 / 3), 0, 1), (1 / 3, 1 / 3, 0, 1),
                    (- (1 / 3), 1 / 3, 0, 1), (- (1 / 3), - (1 / 3), 0, 1)],
             use_cyclic_u = True\<rparr>]"
proof -
  have a: "build_model_from_contours unit_width 2 1 = Inl ZeroDivisionError"
    by (simp add: run_defs unit_width_def triangle_def true_div_def)
  have o: "build_model_from_contours huge_hole 20 1 = Inl OverflowError"
    by (simp add: run_defs huge_hole_def outer_square_def true_div_def float_overflow_def)
  have b: "build_model_from_contours scenario_b (- 2) 1 =
       Inr [\<lparr>co = [(1 / 3, - (1 / 3), 0, 1), (1 / 3, 1 / 3, 0, 1),
                    (- (1 / 3), 1 / 3, 0, 1), (- (1 / 3), - (1 / 3), 0, 1)],
             use_cyclic_u = True\<rparr>]"
    by (simp add: run_defs scenario_b_def)
  have f: "\<forall>c \<in> set (contours scenario_b). \<forall>p \<in> set (points c). fits 10 10 p"
    by (simp add: scenario_b_def fits_def float_overflow_small)
  show ?thesis
    using no_configuration_validation [of unit_width 2 1 ZeroDivisionError]
      no_configuration_validation [of huge_hole 20 1 OverflowError]
      no_configuration_validation [of scenario_b "- 2" "- 3" OverflowError] a o b f
    by (simp add: scenario_b_def)
qed

end
